theory Spec2Isabelle
  imports Main "HOL-Library.AList"
begin

section \<open>The science worker\<close>

text \<open>
  The module \<^verbatim>\<open>science-worker/main.py\<close> is eleven lines long:
  it imports the class \<^verbatim>\<open>FastAPI\<close>, creates one application object
  \<^verbatim>\<open>app\<close>, and registers two parameterless functions on it, each of which
  returns a dictionary display of string constants.

  The embedding keeps three layers apart:
  \<^item> the Python values and the process state a function body can reach (module globals,
    the heap of dictionary objects, the process environment, the uptime);
  \<^item> the two handlers and the module body, translated statement by statement;
  \<^item> the part of the web framework that \<^verbatim>\<open>main.py\<close> calls: the constructor,
    the \<^verbatim>\<open>get\<close> decorator and the dispatch of a request to a registered route,
    with the defaults that apply when, as here, no keyword argument is passed.
\<close>

subsection \<open>Values and process state\<close>

text \<open>
  A dictionary with string keys and string values. Python dictionaries keep insertion
  order, so the model is an association list with distinct keys.
\<close>

type_synonym pydict = "(string \<times> string) list"

text \<open>Dictionary objects live on a heap; a reference is an index into it.\<close>

type_synonym addr = nat

datatype pyexn = PyException string

datatype http_method = GET | HEAD | POST | PUT | PATCH | DELETE | OPTIONS

text \<open>A reference to one of the two function objects that \<^verbatim>\<open>main.py\<close> defines.\<close>

datatype funcref = Fn_health_check | Fn_read_root

text \<open>
  A registered route: what \<^verbatim>\<open>app.get(path)(f)\<close> stores about \<^verbatim>\<open>f\<close>.
\<close>

record route =
  route_path :: string
  route_methods :: "http_method list"
  route_endpoint :: funcref
  route_status_code :: nat
  route_media_type :: string

text \<open>The application object: its route registry, in registration order.\<close>

record fastapi =
  routes :: "route list"

text \<open>The objects a module-level name of \<^verbatim>\<open>main.py\<close> can be bound to.\<close>

datatype pyobj = Class_FastAPI | App fastapi | Function funcref

type_synonym namespace = "(string \<times> pyobj) list"

text \<open>
  Everything a function body could read or write when it runs: the module's global
  namespace, the heap, the process environment and the time since process start.
\<close>

record world =
  globals :: namespace
  heap :: "pydict list"
  environ :: "(string \<times> string) list"
  uptime :: nat

text \<open>An incoming request, with the path already separated from the query string.\<close>

record request =
  req_method :: http_method
  req_path :: string
  req_query :: "(string \<times> string) list"
  req_headers :: "(string \<times> string) list"
  req_body :: string

datatype content = JSON pydict | Text string

record response =
  status_code :: nat
  media_type :: string
  content :: content

subsection \<open>Dictionary displays\<close>

text \<open>
  A display \<^verbatim>\<open>{k1: v1, k2: v2}\<close> starts from the empty dictionary and stores the
  pairs from left to right; storing under a key that is already present replaces its
  value and keeps its position.
\<close>

definition dict_display :: "(string \<times> string) list \<Rightarrow> pydict" where
  "dict_display kvs = foldl (\<lambda>d (k, v). AList.update k v d) [] kvs"

text \<open>Evaluating a display allocates a new object and yields the reference to it.\<close>

definition new_dict :: "pydict \<Rightarrow> world \<Rightarrow> addr \<times> world" where
  "new_dict d w = (length (heap w), w\<lparr>heap := heap w @ [d]\<rparr>)"

definition heap_get :: "pydict list \<Rightarrow> addr \<Rightarrow> pydict option" where
  "heap_get h a = (if a < length h then Some (h ! a) else None)"

subsection \<open>The handlers\<close>

text \<open>
  \<^verbatim>\<open>def health_check(): return {"status": "ok", "service": "science-worker"}\<close>

  A call either raises (\<open>Inl\<close>) or returns a reference (\<open>Inr\<close>), and yields the
  world it leaves behind.
\<close>

definition health_check :: "world \<Rightarrow> (pyexn + addr) \<times> world" where
  "health_check w =
     (let (a, w') = new_dict (dict_display [(''status'', ''ok''), (''service'', ''science-worker'')]) w
      in (Inr a, w'))"

text \<open>\<^verbatim>\<open>def read_root(): return {"message": "Zone14 Science Worker"}\<close>\<close>

definition read_root :: "world \<Rightarrow> (pyexn + addr) \<times> world" where
  "read_root w =
     (let (a, w') = new_dict (dict_display [(''message'', ''Zone14 Science Worker'')]) w
      in (Inr a, w'))"

fun call_endpoint :: "funcref \<Rightarrow> world \<Rightarrow> (pyexn + addr) \<times> world" where
  "call_endpoint Fn_health_check w = health_check w"
| "call_endpoint Fn_read_root w = read_root w"

subsection \<open>The framework calls made by the module\<close>

text \<open>
  \<^verbatim>\<open>FastAPI()\<close> with no argument: an application whose registry holds no route of
  the module yet. (The routes the framework installs for its own documentation pages have
  paths other than \<^verbatim>\<open>/health\<close> and \<^verbatim>\<open>/\<close> and are not modelled.)
\<close>

definition FastAPI :: fastapi where
  "FastAPI = \<lparr>routes = []\<rparr>"

text \<open>
  \<^verbatim>\<open>app.get(path)\<close> applied to a function appends a route for method GET. With no
  \<^verbatim>\<open>status_code\<close> and no \<^verbatim>\<open>response_class\<close> argument the route answers with
  status 200 and the framework's default JSON response class.
\<close>

definition app_get :: "string \<Rightarrow> funcref \<Rightarrow> fastapi \<Rightarrow> fastapi" where
  "app_get path f a =
     a\<lparr>routes := routes a @
        [\<lparr>route_path = path, route_methods = [GET], route_endpoint = f,
          route_status_code = 200, route_media_type = ''application/json''\<rparr>]\<rparr>"

subsection \<open>The module body\<close>

text \<open>
  A decorated definition \<^verbatim>\<open>@app.get(path) def name(): ...\<close> looks up
  \<^verbatim>\<open>app\<close>, registers the function on it and binds \<^verbatim>\<open>name\<close> to the function
  (the decorator returns the function it was given). The application object is kept in the
  namespace by value, so registering a route updates the entry of \<^verbatim>\<open>app\<close>.
\<close>

definition decorated_def :: "string \<Rightarrow> string \<Rightarrow> funcref \<Rightarrow> namespace \<Rightarrow> pyexn + namespace" where
  "decorated_def path name f g =
     (case map_of g ''app'' of
        Some (App a) \<Rightarrow>
          Inr (AList.update name (Function f) (AList.update ''app'' (App (app_get path f a)) g))
      | Some _ \<Rightarrow> Inl (PyException ''AttributeError'')
      | None \<Rightarrow> Inl (PyException ''NameError''))"

text \<open>
  The four top-level statements of \<^verbatim>\<open>main.py\<close>. The namespace records the names
  that the module body binds; the entries the interpreter itself puts into every module
  namespace before the body runs (\<^verbatim>\<open>__name__\<close>, \<^verbatim>\<open>__builtins__\<close> and the like)
  are no bindings of \<^verbatim>\<open>main.py\<close> and are left out, so the body starts from the
  empty list.
\<close>

definition import_main :: "pyexn + namespace" where
  "import_main =
     (let g1 = AList.update ''FastAPI'' Class_FastAPI [];
          g2 = AList.update ''app'' (App FastAPI) g1
      in case decorated_def ''/health'' ''health_check'' Fn_health_check g2 of
           Inl e \<Rightarrow> Inl e
         | Inr g3 \<Rightarrow> decorated_def ''/'' ''read_root'' Fn_read_root g3)"

text \<open>A world in which the module has been imported.\<close>

definition module_loaded :: "world \<Rightarrow> bool" where
  "module_loaded w \<longleftrightarrow> import_main = Inr (globals w)"

subsection \<open>Dispatch\<close>

text \<open>
  The router takes the first route whose path equals the request path and whose methods
  contain the request method. The query string, the headers and the body take no part
  in the choice.
\<close>

fun find_route :: "http_method \<Rightarrow> string \<Rightarrow> route list \<Rightarrow> route option" where
  "find_route m p [] = None"
| "find_route m p (r # rs) =
     (if route_path r = p \<and> m \<in> set (route_methods r) then Some r else find_route m p rs)"

definition internal_server_error :: response where
  "internal_server_error =
     \<lparr>status_code = 500, media_type = ''text/plain; charset=utf-8'',
      content = Text ''Internal Server Error''\<rparr>"

text \<open>
  Serving one request: find the route, call its endpoint with no argument (neither
  handler declares a parameter, so nothing is extracted from the request), and wrap the
  returned dictionary in a response with the route's status code and media type. An
  endpoint that raises gives a 500 response. A request that matches no route of the module
  is left to the framework's own default handling, which the model does not describe: the
  result is \<open>None\<close>.

  Requests are served one at a time. How the hosting runtime schedules requests that
  arrive together is outside the module and is not modelled.
\<close>

definition serve :: "world \<Rightarrow> request \<Rightarrow> response option \<times> world" where
  "serve w req =
     (case map_of (globals w) ''app'' of
        Some (App a) \<Rightarrow>
          (case find_route (req_method req) (req_path req) (routes a) of
             None \<Rightarrow> (None, w)
           | Some r \<Rightarrow>
               (case call_endpoint (route_endpoint r) w of
                  (Inl e, w') \<Rightarrow> (Some internal_server_error, w')
                | (Inr a, w') \<Rightarrow>
                    (case heap_get (heap w') a of
                       None \<Rightarrow> (Some internal_server_error, w')
                     | Some d \<Rightarrow>
                         (Some \<lparr>status_code = route_status_code r,
                                media_type = route_media_type r,
                                content = JSON d\<rparr>, w'))))
      | _ \<Rightarrow> (None, w))"

text \<open>The body of a response read as a finite map; a non-JSON body has no entries.\<close>

definition json_body :: "response \<Rightarrow> (string \<rightharpoonup> string)" where
  "json_body r = (case content r of JSON d \<Rightarrow> map_of d | Text _ \<Rightarrow> Map.empty)"

subsection \<open>Observations on calls and runs\<close>

text \<open>The dictionary a call returned, read through the returned reference.\<close>

definition returned_dict :: "(pyexn + addr) \<times> world \<Rightarrow> pydict option" where
  "returned_dict res =
     (case res of (Inl e, w') \<Rightarrow> None | (Inr a, w') \<Rightarrow> heap_get (heap w') a)"

text \<open>
  \<open>unchanged w w'\<close>: every module-level binding, the environment, the uptime and every
  object that exists in \<open>w\<close> are the same in \<open>w'\<close>. Objects created since \<open>w\<close> lie beyond
  the old end of the heap.
\<close>

definition unchanged :: "world \<Rightarrow> world \<Rightarrow> bool" where
  "unchanged w w' \<longleftrightarrow>
     globals w' = globals w \<and> environ w' = environ w \<and> uptime w' = uptime w
     \<and> take (length (heap w)) (heap w') = heap w"

text \<open>
  A client that sends the same request \<open>n\<close> times, each time to the world the previous
  request left behind, and collects the responses in order.
\<close>

fun repeat_request :: "nat \<Rightarrow> world \<Rightarrow> request \<Rightarrow> response option list \<times> world" where
  "repeat_request 0 w req = ([], w)"
| "repeat_request (Suc n) w req =
     (let (r, w') = serve w req; (rs, w'') = repeat_request n w' req in (r # rs, w''))"

subsection \<open>Requests in flight together\<close>

text \<open>
  Serving a request has two phases, and other activity may fall between them. The first
  phase is everything up to the return of the handler: the lookup of \<^verbatim>\<open>app\<close>, the
  choice of the route and the call. What it leaves behind is the route and the outcome of
  the call (or nothing, when no route of the module matches).
\<close>

record pending =
  pend_route :: route
  pend_result :: "pyexn + addr"

definition begin_request :: "world \<Rightarrow> request \<Rightarrow> pending option \<times> world" where
  "begin_request w req =
     (case map_of (globals w) ''app'' of
        Some (App a) \<Rightarrow>
          (case find_route (req_method req) (req_path req) (routes a) of
             None \<Rightarrow> (None, w)
           | Some r \<Rightarrow>
               (case call_endpoint (route_endpoint r) w of
                  (res, w') \<Rightarrow> (Some \<lparr>pend_route = r, pend_result = res\<rparr>, w')))
      | _ \<Rightarrow> (None, w))"

text \<open>
  The second phase reads the returned object, in the world as it is by then, and builds the
  response. \<open>serve\<close> is the first phase followed at once by the second (lemma
  \<open>serve_two_phase\<close> below).
\<close>

definition finish_request :: "world \<Rightarrow> pending option \<Rightarrow> response option" where
  "finish_request w p =
     (case p of
        None \<Rightarrow> None
      | Some pd \<Rightarrow>
          (case pend_result pd of
             Inl e \<Rightarrow> Some internal_server_error
           | Inr a \<Rightarrow>
               (case heap_get (heap w) a of
                  None \<Rightarrow> Some internal_server_error
                | Some d \<Rightarrow>
                    Some \<lparr>status_code = route_status_code (pend_route pd),
                          media_type = route_media_type (pend_route pd),
                          content = JSON d\<rparr>)))"

text \<open>
  What can happen in the process, one event at a time: a client's request enters its first
  phase, a client's request in flight gets its response, some other code allocates an
  object, time passes. A schedule is any list of such events; nothing is assumed about
  the scheduler that produces it.
\<close>

datatype event = Begin nat request | Finish nat | Alloc pydict | Tick

text \<open>
  The server: the world, the requests in flight (by client, with what the first phase left
  behind) and the responses given so far, oldest first.
\<close>

record server =
  sworld :: world
  inflight :: "(nat \<times> request \<times> pending option) list"
  answered :: "(nat \<times> request \<times> response option) list"

text \<open>
  A client has at most one request in flight: a \<open>Begin\<close> for a client that is still
  waiting is ignored, and so is a \<open>Finish\<close> for a client that is not.
\<close>

fun handle_event :: "server \<Rightarrow> event \<Rightarrow> server" where
  "handle_event s (Begin c req) =
     (case map_of (inflight s) c of
        Some _ \<Rightarrow> s
      | None \<Rightarrow>
          (let (p, w') = begin_request (sworld s) req
           in s\<lparr>sworld := w', inflight := (c, req, p) # inflight s\<rparr>))"
| "handle_event s (Finish c) =
     (case map_of (inflight s) c of
        None \<Rightarrow> s
      | Some (req, p) \<Rightarrow>
          s\<lparr>inflight := AList.delete c (inflight s),
            answered := answered s @ [(c, req, finish_request (sworld s) p)]\<rparr>)"
| "handle_event s (Alloc d) = s\<lparr>sworld := (sworld s)\<lparr>heap := heap (sworld s) @ [d]\<rparr>\<rparr>"
| "handle_event s Tick = s\<lparr>sworld := (sworld s)\<lparr>uptime := Suc (uptime (sworld s))\<rparr>\<rparr>"

definition run_events :: "server \<Rightarrow> event list \<Rightarrow> server" where
  "run_events s evs = foldl handle_event s evs"

text \<open>
  The invariant of a run that started in world \<open>w0\<close>. The namespace is that of \<open>w0\<close>;
  every request in flight holds a reference to an existing object and would, if finished
  now, get the response it gets when served alone in \<open>w0\<close>; every response given is that
  response.
\<close>

definition pending_valid :: "world \<Rightarrow> pending option \<Rightarrow> bool" where
  "pending_valid w p =
     (case p of
        None \<Rightarrow> True
      | Some pd \<Rightarrow> (case pend_result pd of Inl e \<Rightarrow> True | Inr a \<Rightarrow> a < length (heap w)))"

definition serving :: "world \<Rightarrow> server \<Rightarrow> bool" where
  "serving w0 s \<longleftrightarrow>
     globals (sworld s) = globals w0
     \<and> (\<forall>(c, req, p) \<in> set (inflight s).
           pending_valid (sworld s) p \<and> finish_request (sworld s) p = fst (serve w0 req))
     \<and> (\<forall>(c, req, resp) \<in> set (answered s). resp = fst (serve w0 req))"

subsection \<open>Sample inputs\<close>

text \<open>The world right after import, and one that has been running for a while.\<close>

definition fresh_world :: world where
  "fresh_world =
     \<lparr>globals = (case import_main of Inr g \<Rightarrow> g | Inl _ \<Rightarrow> []),
      heap = [], environ = [], uptime = 0\<rparr>"

definition busy_world :: world where
  "busy_world =
     fresh_world\<lparr>heap := [[(''status'', ''down'')], [(''message'', ''tampered'')]],
                 environ := [(''PORT'', ''8000'')], uptime := 86400\<rparr>"

text \<open>\<^verbatim>\<open>GET /health?foo=bar\<close> and a \<^verbatim>\<open>GET /\<close> that carries a header and a body.\<close>

definition health_request :: request where
  "health_request =
     \<lparr>req_method = GET, req_path = ''/health'', req_query = [(''foo'', ''bar'')],
      req_headers = [], req_body = ''''\<rparr>"

definition root_request :: request where
  "root_request =
     \<lparr>req_method = GET, req_path = ''/'', req_query = [],
      req_headers = [(''accept'', ''text/plain'')], req_body = ''ping''\<rparr>"

text \<open>
  A server with nothing in flight, and a schedule in which three clients overlap: client 2
  begins after client 1 and is answered before it, with a foreign allocation and a tick
  in between.
\<close>

definition idle_server :: server where
  "idle_server = \<lparr>sworld = busy_world, inflight = [], answered = []\<rparr>"

definition overlap_schedule :: "event list" where
  "overlap_schedule =
     [Begin 1 health_request, Begin 2 root_request, Alloc [(''status'', ''down'')],
      Finish 2, Tick, Begin 3 health_request, Finish 1, Finish 3]"

section \<open>Facts about the module\<close>

lemma import_main_value:
  "import_main = Inr
     [(''FastAPI'', Class_FastAPI),
      (''app'', App \<lparr>routes =
         [\<lparr>route_path = ''/health'', route_methods = [GET], route_endpoint = Fn_health_check,
           route_status_code = 200, route_media_type = ''application/json''\<rparr>,
          \<lparr>route_path = ''/'', route_methods = [GET], route_endpoint = Fn_read_root,
           route_status_code = 200, route_media_type = ''application/json''\<rparr>]\<rparr>),
      (''health_check'', Function Fn_health_check),
      (''read_root'', Function Fn_read_root)]"
  by (simp add: import_main_def decorated_def_def app_get_def FastAPI_def)

text \<open>Each handler body evaluates in one step to a new object at the end of the heap.\<close>

lemma health_check_eval:
  "health_check w =
     (Inr (length (heap w)),
      w\<lparr>heap := heap w @ [[(''status'', ''ok''), (''service'', ''science-worker'')]]\<rparr>)"
  by (simp add: health_check_def new_dict_def dict_display_def)

lemma read_root_eval:
  "read_root w =
     (Inr (length (heap w)), w\<lparr>heap := heap w @ [[(''message'', ''Zone14 Science Worker'')]]\<rparr>)"
  by (simp add: read_root_def new_dict_def dict_display_def)

lemma heap_get_new: "heap_get (h @ [d]) (length h) = Some d"
  by (simp add: heap_get_def)

lemma loaded_globals:
  assumes "module_loaded w"
  shows "globals w =
     [(''FastAPI'', Class_FastAPI),
      (''app'', App \<lparr>routes =
         [\<lparr>route_path = ''/health'', route_methods = [GET], route_endpoint = Fn_health_check,
           route_status_code = 200, route_media_type = ''application/json''\<rparr>,
          \<lparr>route_path = ''/'', route_methods = [GET], route_endpoint = Fn_read_root,
           route_status_code = 200, route_media_type = ''application/json''\<rparr>]\<rparr>),
      (''health_check'', Function Fn_health_check),
      (''read_root'', Function Fn_read_root)]"
  using assms unfolding module_loaded_def import_main_value by simp

lemma fresh_world_loaded: "module_loaded fresh_world"
  by (simp add: module_loaded_def fresh_world_def import_main_value)

lemma busy_world_loaded: "module_loaded busy_world"
  by (simp add: module_loaded_def busy_world_def fresh_world_def import_main_value)

text \<open>What serving does on each of the two routes: the response and the world left behind.\<close>

lemma serve_health:
  assumes "module_loaded w" and "req_method req = GET" and "req_path req = ''/health''"
  shows "serve w req =
     (Some \<lparr>status_code = 200, media_type = ''application/json'',
            content = JSON [(''status'', ''ok''), (''service'', ''science-worker'')]\<rparr>,
      w\<lparr>heap := heap w @ [[(''status'', ''ok''), (''service'', ''science-worker'')]]\<rparr>)"
  using assms
  by (simp add: serve_def loaded_globals health_check_eval heap_get_new)

lemma serve_root:
  assumes "module_loaded w" and "req_method req = GET" and "req_path req = ''/''"
  shows "serve w req =
     (Some \<lparr>status_code = 200, media_type = ''application/json'',
            content = JSON [(''message'', ''Zone14 Science Worker'')]\<rparr>,
      w\<lparr>heap := heap w @ [[(''message'', ''Zone14 Science Worker'')]]\<rparr>)"
  using assms
  by (simp add: serve_def loaded_globals read_root_eval heap_get_new)

section \<open>The two endpoints\<close>

text \<open>
  Claim C1. Once the module is loaded, every request \<^verbatim>\<open>GET /health\<close>, whatever its
  query parameters, headers and body, is answered with status 200 and the JSON object
  \<^verbatim>\<open>{"status": "ok", "service": "science-worker"}\<close>: read as a map, the body has
  exactly the keys \<^verbatim>\<open>status\<close> and \<^verbatim>\<open>service\<close>, bound to those two strings.
\<close>

theorem get_health_response:
  assumes "module_loaded w"
  shows "fst (serve w \<lparr>req_method = GET, req_path = ''/health'', req_query = q,
                        req_headers = hs, req_body = b\<rparr>) =
           Some \<lparr>status_code = 200, media_type = ''application/json'',
                  content = JSON [(''status'', ''ok''), (''service'', ''science-worker'')]\<rparr>
       \<and> map_option json_body
            (fst (serve w \<lparr>req_method = GET, req_path = ''/health'', req_query = q,
                           req_headers = hs, req_body = b\<rparr>)) =
           Some [''status'' \<mapsto> ''ok'', ''service'' \<mapsto> ''science-worker'']"
proof -
  let ?req = "\<lparr>req_method = GET, req_path = ''/health'', req_query = q,
                req_headers = hs, req_body = b\<rparr>"
  have r: "fst (serve w ?req) =
             Some \<lparr>status_code = 200, media_type = ''application/json'',
                    content = JSON [(''status'', ''ok''), (''service'', ''science-worker'')]\<rparr>"
    using assms by (simp add: serve_health)
  have m: "map_of [(''status'', ''ok''), (''service'', ''science-worker'')] =
             [''status'' \<mapsto> ''ok'', ''service'' \<mapsto> ''science-worker'']"
    by (rule ext) simp
  show ?thesis
    unfolding r by (simp add: json_body_def m del: map_of.simps)
qed

theorem get_health_response_witness:
  "module_loaded busy_world
   \<and> fst (serve busy_world \<lparr>req_method = GET, req_path = ''/health'',
                             req_query = [(''foo'', ''bar'')], req_headers = [(''x-probe'', ''1'')],
                             req_body = ''ignored''\<rparr>) =
       Some \<lparr>status_code = 200, media_type = ''application/json'',
              content = JSON [(''status'', ''ok''), (''service'', ''science-worker'')]\<rparr>"
  using get_health_response [of busy_world "[(''foo'', ''bar'')]" "[(''x-probe'', ''1'')]" "''ignored''"]
  by (simp add: module_loaded_def busy_world_def fresh_world_def import_main_value)

text \<open>
  Claim C2. Once the module is loaded, every request \<^verbatim>\<open>GET /\<close>, whatever its query
  parameters, headers and body, is answered with status 200 and the JSON object
  \<^verbatim>\<open>{"message": "Zone14 Science Worker"}\<close>: read as a map, the body has exactly the
  one key \<^verbatim>\<open>message\<close>, bound to that string.
\<close>

theorem get_root_response:
  assumes "module_loaded w"
  shows "fst (serve w \<lparr>req_method = GET, req_path = ''/'', req_query = q,
                        req_headers = hs, req_body = b\<rparr>) =
           Some \<lparr>status_code = 200, media_type = ''application/json'',
                  content = JSON [(''message'', ''Zone14 Science Worker'')]\<rparr>
       \<and> map_option json_body
            (fst (serve w \<lparr>req_method = GET, req_path = ''/'', req_query = q,
                           req_headers = hs, req_body = b\<rparr>)) =
           Some [''message'' \<mapsto> ''Zone14 Science Worker'']"
proof -
  let ?req = "\<lparr>req_method = GET, req_path = ''/'', req_query = q,
                req_headers = hs, req_body = b\<rparr>"
  have "fst (serve w ?req) =
          Some \<lparr>status_code = 200, media_type = ''application/json'',
                 content = JSON [(''message'', ''Zone14 Science Worker'')]\<rparr>"
    using assms by (simp add: serve_root)
  then show ?thesis
    by (simp add: json_body_def)
qed

theorem get_root_response_witness:
  "module_loaded fresh_world
   \<and> fst (serve fresh_world \<lparr>req_method = GET, req_path = ''/'',
                              req_query = [(''verbose'', ''1'')], req_headers = [],
                              req_body = ''ping''\<rparr>) =
       Some \<lparr>status_code = 200, media_type = ''application/json'',
              content = JSON [(''message'', ''Zone14 Science Worker'')]\<rparr>"
  using get_root_response [of fresh_world "[(''verbose'', ''1'')]" "[]" "''ping''"]
  by (simp add: module_loaded_def fresh_world_def import_main_value)

text \<open>Both calls in one statement, with the dictionary each function builds.\<close>

lemma call_endpoint_eval:
  "call_endpoint f w =
     (Inr (length (heap w)),
      w\<lparr>heap := heap w @
         [case f of
            Fn_health_check \<Rightarrow> [(''status'', ''ok''), (''service'', ''science-worker'')]
          | Fn_read_root \<Rightarrow> [(''message'', ''Zone14 Science Worker'')]]\<rparr>)"
  by (cases f) (simp_all add: health_check_eval read_root_eval)

text \<open>
  Serving in any world, loaded or not: the error branches of \<open>serve\<close> are never taken,
  because a call always returns a reference to the object it has just created.
\<close>

lemma serve_eval:
  "serve w req =
     (case map_of (globals w) ''app'' of
        Some (App a) \<Rightarrow>
          (case find_route (req_method req) (req_path req) (routes a) of
             None \<Rightarrow> (None, w)
           | Some r \<Rightarrow>
               (Some \<lparr>status_code = route_status_code r, media_type = route_media_type r,
                      content = JSON
                        (case route_endpoint r of
                           Fn_health_check \<Rightarrow> [(''status'', ''ok''), (''service'', ''science-worker'')]
                         | Fn_read_root \<Rightarrow> [(''message'', ''Zone14 Science Worker'')])\<rparr>,
                w\<lparr>heap := heap w @
                   [case route_endpoint r of
                      Fn_health_check \<Rightarrow> [(''status'', ''ok''), (''service'', ''science-worker'')]
                    | Fn_read_root \<Rightarrow> [(''message'', ''Zone14 Science Worker'')]]\<rparr>))
      | _ \<Rightarrow> (None, w))"
  by (simp add: serve_def call_endpoint_eval heap_get_new split: option.splits pyobj.splits)

lemma serve_fst_globals:
  assumes "globals w1 = globals w2" and "req_method r1 = req_method r2"
    and "req_path r1 = req_path r2"
  shows "fst (serve w1 r1) = fst (serve w2 r2)"
  using assms by (simp add: serve_eval split: option.splits pyobj.splits)

lemma serve_unchanged: "unchanged w (snd (serve w req))"
  by (simp add: serve_eval unchanged_def split: option.splits pyobj.splits)

lemma serve_globals: "globals (snd (serve w req)) = globals w"
  using serve_unchanged [of w req] by (simp add: unchanged_def)

lemma repeat_request_replicate:
  "fst (repeat_request n w req) = replicate n (fst (serve w req))"
proof (induction n arbitrary: w)
  case 0
  show ?case by simp
next
  case (Suc n)
  have "fst (serve (snd (serve w req)) req) = fst (serve w req)"
    by (rule serve_fst_globals) (simp_all add: serve_globals)
  with Suc.IH [of "snd (serve w req)"] show ?case
    by (simp add: split_beta Let_def)
qed

text \<open>The two phases and the events of a schedule.\<close>

lemma serve_two_phase:
  "serve w req =
     (finish_request (snd (begin_request w req)) (fst (begin_request w req)),
      snd (begin_request w req))"
  by (simp add: serve_def begin_request_def finish_request_def
        split: option.splits pyobj.splits prod.splits sum.splits)

lemma begin_request_heap:
  "\<exists>xs. heap (snd (begin_request w req)) = heap w @ xs"
proof -
  have "heap (snd (begin_request w req)) = heap w @ []
      \<or> (\<exists>d. heap (snd (begin_request w req)) = heap w @ [d])"
    by (simp add: begin_request_def call_endpoint_eval split: option.splits pyobj.splits)
  then show ?thesis by blast
qed

lemma begin_request_globals:
  "globals (snd (begin_request w req)) = globals w"
  by (simp add: begin_request_def call_endpoint_eval split: option.splits pyobj.splits)

lemma begin_request_valid:
  "pending_valid (snd (begin_request w req)) (fst (begin_request w req))"
  by (simp add: begin_request_def pending_valid_def call_endpoint_eval
        split: option.splits pyobj.splits)

lemma finish_request_stable:
  assumes "pending_valid w p" and "heap w' = heap w @ xs"
  shows "pending_valid w' p \<and> finish_request w' p = finish_request w p"
  using assms
  by (auto simp: pending_valid_def finish_request_def heap_get_def nth_append
        split: option.splits sum.splits)

lemma handle_event_heap:
  "\<exists>xs. heap (sworld (handle_event s e)) = heap (sworld s) @ xs"
proof (cases e)
  case (Begin c req)
  obtain xs where "heap (snd (begin_request (sworld s) req)) = heap (sworld s) @ xs"
    using begin_request_heap by blast
  moreover have "heap (sworld s) = heap (sworld s) @ []" by simp
  ultimately show ?thesis
    using Begin by (cases "map_of (inflight s) c") (auto simp: split_beta)
next
  case (Finish c)
  have "heap (sworld (handle_event s e)) = heap (sworld s) @ []"
    using Finish by (simp split: option.splits)
  then show ?thesis by blast
next
  case (Alloc d)
  then show ?thesis by simp
next
  case Tick
  have "heap (sworld (handle_event s e)) = heap (sworld s) @ []"
    using Tick by simp
  then show ?thesis by blast
qed

lemma handle_event_globals:
  "globals (sworld (handle_event s e)) = globals (sworld s)"
  by (cases e) (simp_all add: split_beta begin_request_globals split: option.splits)

lemma handle_event_serving:
  assumes "serving w0 s"
  shows "serving w0 (handle_event s e)"
proof -
  obtain xs where h: "heap (sworld (handle_event s e)) = heap (sworld s) @ xs"
    using handle_event_heap by blast
  have g: "globals (sworld (handle_event s e)) = globals w0"
    using assms by (simp add: handle_event_globals serving_def)
  have old: "pending_valid (sworld (handle_event s e)) p
             \<and> finish_request (sworld (handle_event s e)) p = fst (serve w0 req)"
    if "(c, req, p) \<in> set (inflight s)" for c req p
  proof -
    from that assms have "pending_valid (sworld s) p"
      and "finish_request (sworld s) p = fst (serve w0 req)"
      by (auto simp: serving_def)
    with finish_request_stable [OF _ h] show ?thesis by simp
  qed
  have ans: "resp = fst (serve w0 req)" if "(c, req, resp) \<in> set (answered s)" for c req resp
    using that assms by (auto simp: serving_def)
  show ?thesis
  proof (cases e)
    case (Begin c req)
    show ?thesis
    proof (cases "map_of (inflight s) c")
      case (Some x)
      with Begin assms show ?thesis by simp
    next
      case None
      let ?b = "begin_request (sworld s) req"
      have e: "handle_event s e = s\<lparr>sworld := snd ?b, inflight := (c, req, fst ?b) # inflight s\<rparr>"
        using Begin None by (simp add: split_beta)
      have "fst (serve (sworld s) req) = fst (serve w0 req)"
        using assms by (intro serve_fst_globals) (simp_all add: serving_def)
      then have new: "pending_valid (snd ?b) (fst ?b)
                      \<and> finish_request (snd ?b) (fst ?b) = fst (serve w0 req)"
        by (simp add: begin_request_valid serve_two_phase)
      show ?thesis
        unfolding serving_def
        using g old ans new by (auto simp: e)
    qed
  next
    case (Finish c)
    show ?thesis
    proof (cases "map_of (inflight s) c")
      case None
      with Finish assms show ?thesis by simp
    next
      case (Some x)
      obtain req p where x: "x = (req, p)" by (cases x)
      have m: "(c, req, p) \<in> set (inflight s)"
        using Some x by (simp add: map_of_SomeD)
      have e: "handle_event s e =
                 s\<lparr>inflight := AList.delete c (inflight s),
                   answered := answered s @ [(c, req, finish_request (sworld s) p)]\<rparr>"
        using Finish Some x by simp
      have sub: "set (AList.delete c (inflight s)) \<subseteq> set (inflight s)"
        by (auto simp: AList.delete_eq)
      have "finish_request (sworld s) p = fst (serve w0 req)"
        using m assms by (auto simp: serving_def)
      then show ?thesis
        unfolding serving_def
        using g old ans sub by (auto simp: e)
    qed
  next
    case (Alloc d)
    then have e: "inflight (handle_event s e) = inflight s" "answered (handle_event s e) = answered s"
      by simp_all
    show ?thesis
      unfolding serving_def e using g old ans by auto
  next
    case Tick
    then have e: "inflight (handle_event s e) = inflight s" "answered (handle_event s e) = answered s"
      by simp_all
    show ?thesis
      unfolding serving_def e using g old ans by auto
  qed
qed

lemma run_events_serving:
  assumes "serving w0 s"
  shows "serving w0 (run_events s evs)"
  using assms unfolding run_events_def
  by (induction evs arbitrary: s) (simp_all add: handle_event_serving)

lemma idle_serving:
  assumes "inflight s = []" and "answered s = []"
  shows "serving (sworld s) s"
  using assms by (simp add: serving_def)

lemma inflight_kept:
  assumes "map_of (inflight s) c = Some x" and "e \<noteq> Finish c"
  shows "map_of (inflight (handle_event s e)) c = Some x"
proof (cases e)
  case (Begin c' req)
  show ?thesis
  proof (cases "map_of (inflight s) c'")
    case None
    with assms(1) have "c' \<noteq> c" by auto
    with Begin None assms(1) show ?thesis by (simp add: split_beta)
  next
    case (Some y)
    with Begin assms(1) show ?thesis by simp
  qed
next
  case (Finish c')
  with assms(2) have "c' \<noteq> c" by simp
  with Finish assms(1) show ?thesis
    by (simp add: AList.delete_conv split: option.splits)
next
  case (Alloc d)
  with assms(1) show ?thesis by simp
next
  case Tick
  with assms(1) show ?thesis by simp
qed

lemma run_events_inflight_kept:
  assumes "map_of (inflight s) c = Some x" and "Finish c \<notin> set es"
  shows "map_of (inflight (run_events s es)) c = Some x"
  using assms unfolding run_events_def
proof (induction es arbitrary: s)
  case Nil
  then show ?case by simp
next
  case (Cons e es)
  from Cons.prems have "map_of (inflight (handle_event s e)) c = Some x"
    by (intro inflight_kept) auto
  with Cons show ?case by simp
qed

lemma run_events_append: "run_events s (xs @ ys) = run_events (run_events s xs) ys"
  by (simp add: run_events_def)

lemma begun_request_answered:
  assumes "serving w0 s" and "map_of (inflight s) c = None" and "Finish c \<notin> set es"
  shows "answered (run_events s (Begin c req # es @ [Finish c]))
           = answered (run_events s (Begin c req # es)) @ [(c, req, fst (serve w0 req))]"
proof -
  let ?s1 = "handle_event s (Begin c req)"
  let ?p = "fst (begin_request (sworld s) req)"
  let ?s2 = "run_events ?s1 es"
  have "map_of (inflight ?s1) c = Some (req, ?p)"
    using assms(2) by (simp add: split_beta)
  then have m: "map_of (inflight ?s2) c = Some (req, ?p)"
    using assms(3) by (rule run_events_inflight_kept)
  have "serving w0 ?s2"
    using assms(1) by (intro run_events_serving handle_event_serving)
  moreover have "(c, req, ?p) \<in> set (inflight ?s2)"
    using m by (simp add: map_of_SomeD)
  ultimately have f: "finish_request (sworld ?s2) ?p = fst (serve w0 req)"
    by (auto simp: serving_def)
  have "run_events s (Begin c req # es @ [Finish c]) = handle_event ?s2 (Finish c)"
    by (simp add: run_events_def)
  moreover have "run_events s (Begin c req # es) = ?s2"
    by (simp add: run_events_def)
  ultimately show ?thesis
    using m f by simp
qed

lemma overlap_answers:
  "answered (run_events idle_server overlap_schedule) =
     [(2, root_request,
       Some \<lparr>status_code = 200, media_type = ''application/json'',
              content = JSON [(''message'', ''Zone14 Science Worker'')]\<rparr>),
      (1, health_request,
       Some \<lparr>status_code = 200, media_type = ''application/json'',
              content = JSON [(''status'', ''ok''), (''service'', ''science-worker'')]\<rparr>),
      (3, health_request,
       Some \<lparr>status_code = 200, media_type = ''application/json'',
              content = JSON [(''status'', ''ok''), (''service'', ''science-worker'')]\<rparr>)]"
  by (simp add: run_events_def idle_server_def overlap_schedule_def begin_request_def
        finish_request_def busy_world_def fresh_world_def import_main_value
        health_request_def root_request_def call_endpoint_eval heap_get_def nth_append)

lemma overlap_inflight: "inflight (run_events idle_server overlap_schedule) = []"
  by (simp add: run_events_def idle_server_def overlap_schedule_def begin_request_def
        busy_world_def fresh_world_def import_main_value
        health_request_def root_request_def call_endpoint_eval)

section \<open>Independence of the input, repetition, failure, effects\<close>

text \<open>
  Claim C3. The responses are constants of the endpoint. Take two invocations of the same
  endpoint (\<^verbatim>\<open>GET /health\<close> or \<^verbatim>\<open>GET /\<close>) in two worlds that have the module loaded
  and may differ in everything else (heap contents, environment, uptime), with requests
  that may differ in query, headers and body: both are answered, and with the same
  response. Likewise each handler, called in any two worlds whatsoever, returns the same
  dictionary.
\<close>

theorem responses_input_independent:
  assumes "module_loaded w1" and "module_loaded w2"
    and "req_method r1 = GET" and "req_method r2 = GET"
    and "req_path r1 = req_path r2"
    and "req_path r1 = ''/health'' \<or> req_path r1 = ''/''"
  shows "fst (serve w1 r1) = fst (serve w2 r2) \<and> fst (serve w1 r1) \<noteq> None
       \<and> returned_dict (call_endpoint f w1) = returned_dict (call_endpoint f w2)
       \<and> returned_dict (call_endpoint f w1) \<noteq> None"
proof -
  have "globals w1 = globals w2"
    using assms(1,2) by (simp add: loaded_globals)
  then have "fst (serve w1 r1) = fst (serve w2 r2)"
    using assms(3,4,5) by (intro serve_fst_globals) simp_all
  moreover have "fst (serve w1 r1) \<noteq> None"
    using assms(1,3,6) by (auto simp: serve_health serve_root)
  moreover have "returned_dict (call_endpoint f w) =
      Some (case f of
              Fn_health_check \<Rightarrow> [(''status'', ''ok''), (''service'', ''science-worker'')]
            | Fn_read_root \<Rightarrow> [(''message'', ''Zone14 Science Worker'')])" for w
    by (simp add: returned_dict_def call_endpoint_eval heap_get_new)
  ultimately show ?thesis by simp
qed

theorem responses_input_independent_witness:
  "module_loaded fresh_world \<and> module_loaded busy_world
   \<and> fst (serve fresh_world \<lparr>req_method = GET, req_path = ''/health'', req_query = [],
                              req_headers = [], req_body = []\<rparr>)
     = fst (serve busy_world health_request)
   \<and> fst (serve fresh_world \<lparr>req_method = GET, req_path = ''/health'', req_query = [],
                              req_headers = [], req_body = []\<rparr>) \<noteq> None
   \<and> returned_dict (call_endpoint Fn_read_root fresh_world)
     = returned_dict (call_endpoint Fn_read_root busy_world)"
proof -
  let ?plain = "\<lparr>req_method = GET, req_path = ''/health'', req_query = [],
                 req_headers = [], req_body = []\<rparr>"
  have l1: "module_loaded fresh_world"
    by (simp add: module_loaded_def fresh_world_def import_main_value)
  have l2: "module_loaded busy_world"
    by (simp add: module_loaded_def busy_world_def fresh_world_def import_main_value)
  have "req_method ?plain = GET" and "req_method health_request = GET"
    and "req_path ?plain = req_path health_request"
    and "req_path ?plain = ''/health'' \<or> req_path ?plain = ''/''"
    by (simp_all add: health_request_def)
  from responses_input_independent [OF l1 l2 this, of Fn_read_root] l1 l2 show ?thesis
    by blast
qed

text \<open>
  Claim C4. For every natural number \<open>n\<close> and either endpoint, sending the request \<open>n\<close>
  times in a row yields \<open>n\<close> responses, any two of which are equal (and each of which is
  a response of the module, not a miss).
\<close>

theorem repeated_requests_identical:
  assumes "module_loaded w" and "req_method req = GET"
    and "req_path req = ''/health'' \<or> req_path req = ''/''"
  shows "length (fst (repeat_request n w req)) = n
       \<and> (\<forall>i<n. \<forall>j<n. fst (repeat_request n w req) ! i = fst (repeat_request n w req) ! j)
       \<and> (\<forall>i<n. fst (repeat_request n w req) ! i \<noteq> None)"
proof -
  have "fst (serve w req) \<noteq> None"
    using assms by (auto simp: serve_health serve_root)
  then show ?thesis
    by (simp add: repeat_request_replicate)
qed

theorem repeated_requests_identical_witness:
  "module_loaded busy_world
   \<and> length (fst (repeat_request 3 busy_world health_request)) = 3
   \<and> fst (repeat_request 3 busy_world health_request) ! 0
     = fst (repeat_request 3 busy_world health_request) ! 2"
proof -
  have l: "module_loaded busy_world"
    by (simp add: module_loaded_def busy_world_def fresh_world_def import_main_value)
  have "req_method health_request = GET"
    and "req_path health_request = ''/health'' \<or> req_path health_request = ''/''"
    by (simp_all add: health_request_def)
  from repeated_requests_identical [OF l this, of 3] l show ?thesis
    by simp
qed

text \<open>
  Claim C5. Neither operation can fail. In every world a call of \<^verbatim>\<open>health_check\<close> or
  of \<^verbatim>\<open>read_root\<close> returns normally (it does not raise), and with the module loaded
  every \<^verbatim>\<open>GET /health\<close> and every \<^verbatim>\<open>GET /\<close> is answered with status 200, never with
  the 500 response that \<open>serve\<close> gives for a handler that raised.
\<close>

theorem endpoints_never_fail:
  assumes "module_loaded w" and "req_method req = GET"
    and "req_path req = ''/health'' \<or> req_path req = ''/''"
  shows "\<not> isl (fst (health_check w)) \<and> \<not> isl (fst (read_root w))
       \<and> map_option status_code (fst (serve w req)) = Some 200
       \<and> fst (serve w req) \<noteq> Some internal_server_error"
  using assms
  by (auto simp: health_check_eval read_root_eval serve_health serve_root
        internal_server_error_def)

theorem endpoints_never_fail_witness:
  "module_loaded busy_world
   \<and> \<not> isl (fst (health_check busy_world)) \<and> \<not> isl (fst (read_root busy_world))
   \<and> map_option status_code (fst (serve busy_world root_request)) = Some 200"
  using endpoints_never_fail [of busy_world root_request]
  by (simp add: module_loaded_def busy_world_def fresh_world_def import_main_value
        root_request_def)

text \<open>
  Claim C6. Handling a request has no side effect. After a call of either handler, and
  after serving any request at all, every module-level binding, the environment, the
  uptime and every object that existed before are what they were; the only difference is
  the response dictionary the call has created, at a new address.
\<close>

theorem requests_leave_state_unchanged:
  "unchanged w (snd (health_check w)) \<and> unchanged w (snd (read_root w))
   \<and> unchanged w (snd (serve w req))"
  by (simp add: serve_unchanged) (simp add: unchanged_def health_check_eval read_root_eval)

text \<open>
  Claim C7. With the module loaded, every response to \<^verbatim>\<open>GET /health\<close> and to
  \<^verbatim>\<open>GET /\<close> has media type \<^verbatim>\<open>application/json\<close>, and its body is a JSON object
  of strings: exactly the dictionary that the handler of the route returned when it was
  called in that world (\<^verbatim>\<open>health_check\<close> for \<^verbatim>\<open>/health\<close>, \<^verbatim>\<open>read_root\<close> for
  \<^verbatim>\<open>/\<close>).
\<close>

theorem responses_are_json:
  assumes "module_loaded w" and "req_method req = GET"
    and "req_path req = ''/health'' \<or> req_path req = ''/''"
  shows "map_option media_type (fst (serve w req)) = Some ''application/json''
       \<and> (\<exists>d. map_option content (fst (serve w req)) = Some (JSON d))
       \<and> map_option content (fst (serve w req)) =
           map_option JSON
             (returned_dict (if req_path req = ''/health'' then health_check w else read_root w))
       \<and> returned_dict (if req_path req = ''/health'' then health_check w else read_root w)
           \<noteq> None"
  using assms
  by (auto simp: serve_health serve_root returned_dict_def health_check_eval read_root_eval
        heap_get_new)

theorem responses_are_json_witness:
  "module_loaded fresh_world
   \<and> map_option media_type (fst (serve fresh_world health_request)) = Some ''application/json''
   \<and> map_option media_type (fst (serve fresh_world root_request)) = Some ''application/json''
   \<and> map_option content (fst (serve fresh_world health_request)) =
       map_option JSON (returned_dict (health_check fresh_world))
   \<and> map_option content (fst (serve fresh_world root_request)) =
       map_option JSON (returned_dict (read_root fresh_world))
   \<and> returned_dict (health_check fresh_world) \<noteq> None"
  using responses_are_json [of fresh_world health_request]
    responses_are_json [of fresh_world root_request]
  by (simp add: module_loaded_def fresh_world_def import_main_value
        health_request_def root_request_def)

section \<open>Requests in flight together\<close>

text \<open>
  Claim C8. Concurrent requests do not interfere. Start from a server with the module
  loaded and nothing in flight, and let any schedule \<open>evs\<close> run: requests of any number of
  clients to both endpoints begin and finish in any order, overlapping at will, with
  foreign allocations and the passing of time in between. Then every response given is the
  one the request gets when served alone; for \<^verbatim>\<open>GET /health\<close> that is the fixed
  health response and for \<^verbatim>\<open>GET /\<close> the fixed root response. And no request is lost:
  after any schedule, a request of a client \<open>k\<close> that is not waiting, once begun and,
  after any further events \<open>es\<close>, finished, is answered with that response.
\<close>

theorem concurrent_requests_do_not_interfere:
  assumes "module_loaded (sworld s)" and "inflight s = []" and "answered s = []"
  shows "(\<forall>(c, req, resp) \<in> set (answered (run_events s evs)).
            resp = fst (serve (sworld s) req)
            \<and> (req_method req = GET \<and> req_path req = ''/health'' \<longrightarrow>
                 resp = Some \<lparr>status_code = 200, media_type = ''application/json'',
                               content = JSON [(''status'', ''ok''),
                                               (''service'', ''science-worker'')]\<rparr>)
            \<and> (req_method req = GET \<and> req_path req = ''/'' \<longrightarrow>
                 resp = Some \<lparr>status_code = 200, media_type = ''application/json'',
                               content = JSON [(''message'', ''Zone14 Science Worker'')]\<rparr>))
       \<and> (map_of (inflight (run_events s evs)) k = None \<and> Finish k \<notin> set es \<longrightarrow>
            answered (run_events s (evs @ Begin k rq # es @ [Finish k]))
              = answered (run_events s (evs @ Begin k rq # es))
                @ [(k, rq, fst (serve (sworld s) rq))])"
proof -
  have inv: "serving (sworld s) (run_events s evs)"
    using assms(2,3) by (intro run_events_serving idle_serving)
  have safe: "resp = fst (serve (sworld s) req)"
    if "(c, req, resp) \<in> set (answered (run_events s evs))" for c req resp
    using that inv by (auto simp: serving_def)
  have h: "fst (serve (sworld s) req) =
             Some \<lparr>status_code = 200, media_type = ''application/json'',
                    content = JSON [(''status'', ''ok''), (''service'', ''science-worker'')]\<rparr>"
    if "req_method req = GET" and "req_path req = ''/health''" for req
    using assms(1) that by (simp add: serve_health)
  have r: "fst (serve (sworld s) req) =
             Some \<lparr>status_code = 200, media_type = ''application/json'',
                    content = JSON [(''message'', ''Zone14 Science Worker'')]\<rparr>"
    if "req_method req = GET" and "req_path req = ''/''" for req
    using assms(1) that by (simp add: serve_root)
  have live: "answered (run_events s (evs @ Begin k rq # es @ [Finish k]))
              = answered (run_events s (evs @ Begin k rq # es))
                @ [(k, rq, fst (serve (sworld s) rq))]"
    if "map_of (inflight (run_events s evs)) k = None" and "Finish k \<notin> set es"
    using begun_request_answered [OF inv that] by (simp add: run_events_append)
  have "case x of (c, req, resp) \<Rightarrow>
            resp = fst (serve (sworld s) req)
            \<and> (req_method req = GET \<and> req_path req = ''/health'' \<longrightarrow>
                 resp = Some \<lparr>status_code = 200, media_type = ''application/json'',
                               content = JSON [(''status'', ''ok''),
                                               (''service'', ''science-worker'')]\<rparr>)
            \<and> (req_method req = GET \<and> req_path req = ''/'' \<longrightarrow>
                 resp = Some \<lparr>status_code = 200, media_type = ''application/json'',
                               content = JSON [(''message'', ''Zone14 Science Worker'')]\<rparr>)"
    if "x \<in> set (answered (run_events s evs))" for x
  proof -
    obtain c req resp where x: "x = (c, req, resp)" by (cases x)
    with that have "resp = fst (serve (sworld s) req)" by (simp add: safe)
    then show ?thesis
      unfolding x using h [of req] r [of req] by simp
  qed
  with live show ?thesis
    by blast
qed

theorem concurrent_requests_do_not_interfere_witness:
  "module_loaded (sworld idle_server) \<and> inflight idle_server = [] \<and> answered idle_server = []
   \<and> (1, health_request, fst (serve (sworld idle_server) health_request))
       \<in> set (answered (run_events idle_server overlap_schedule))
   \<and> (2, root_request, fst (serve (sworld idle_server) root_request))
       \<in> set (answered (run_events idle_server overlap_schedule))
   \<and> fst (serve (sworld idle_server) health_request) =
       Some \<lparr>status_code = 200, media_type = ''application/json'',
              content = JSON [(''status'', ''ok''), (''service'', ''science-worker'')]\<rparr>
   \<and> answered (run_events idle_server
                 (overlap_schedule @ Begin 4 root_request # [Tick, Begin 5 health_request]
                    @ [Finish 4]))
       = answered (run_events idle_server
                     (overlap_schedule @ Begin 4 root_request # [Tick, Begin 5 health_request]))
         @ [(4, root_request, fst (serve (sworld idle_server) root_request))]"
proof -
  let ?H = "Some \<lparr>status_code = 200, media_type = ''application/json'',
                   content = JSON [(''status'', ''ok''), (''service'', ''science-worker'')]\<rparr>"
  let ?R = "Some \<lparr>status_code = 200, media_type = ''application/json'',
                   content = JSON [(''message'', ''Zone14 Science Worker'')]\<rparr>"
  have l: "module_loaded (sworld idle_server)"
    by (simp add: idle_server_def busy_world_loaded)
  have i: "inflight idle_server = []" and a: "answered idle_server = []"
    by (simp_all add: idle_server_def)
  note t = concurrent_requests_do_not_interfere
    [OF l i a, where evs = overlap_schedule and k = 4
       and es = "[Tick, Begin 5 health_request]" and rq = root_request]
  have m1: "(1, health_request, ?H) \<in> set (answered (run_events idle_server overlap_schedule))"
    and m2: "(2, root_request, ?R) \<in> set (answered (run_events idle_server overlap_schedule))"
    by (simp_all add: overlap_answers)
  from t m1 have h: "?H = fst (serve (sworld idle_server) health_request)"
    by blast
  from t m2 have r: "?R = fst (serve (sworld idle_server) root_request)"
    by blast
  have "map_of (inflight (run_events idle_server overlap_schedule)) 4 = None"
    by (simp add: overlap_inflight)
  moreover have "Finish 4 \<notin> set [Tick, Begin 5 health_request]"
    by simp
  ultimately have p: "answered (run_events idle_server
                 (overlap_schedule @ Begin 4 root_request # [Tick, Begin 5 health_request]
                    @ [Finish 4]))
       = answered (run_events idle_server
                     (overlap_schedule @ Begin 4 root_request # [Tick, Begin 5 health_request]))
         @ [(4, root_request, fst (serve (sworld idle_server) root_request))]"
    using t by blast
  from m1 m2 show ?thesis
    unfolding h r using l i a p h by simp
qed

section \<open>Termination\<close>

text \<open>
  Claim C9. Both handlers return on every invocation. Neither definition is recursive, and
  in every world the call evaluates to a result: the reference to a new object holding the
  literal dictionary, and the world extended by that object.
\<close>

theorem handlers_return:
  "health_check w =
     (Inr (length (heap w)),
      w\<lparr>heap := heap w @ [[(''status'', ''ok''), (''service'', ''science-worker'')]]\<rparr>)
   \<and> read_root w =
     (Inr (length (heap w)), w\<lparr>heap := heap w @ [[(''message'', ''Zone14 Science Worker'')]]\<rparr>)"
  by (simp add: health_check_eval read_root_eval)

section \<open>Module-level state\<close>

text \<open>
  Claim C10. The module holds no mutable shared state that a handler reads or writes. Of
  the names the module body binds, \<^verbatim>\<open>app\<close> is the only one bound to a data object, the
  route registry (the others are the imported class and the two functions). No handler
  reads a module-level name (its result is the same under any namespace \<open>g\<close>) or writes
  one, and none changes an existing object. Each call returns a
  reference that was not in use before the call and is in use after it: a fresh response
  mapping. So no invocation can observe or influence another: a later request is answered
  the same way whatever request was served before it and whatever has been done since to
  the heap \<open>h\<close>, the earlier response dictionary included.
\<close>

theorem handlers_share_no_state:
  assumes "module_loaded w"
  shows "[n. (n, App a) \<leftarrow> globals w] = [''app'']
       \<and> call_endpoint f (w\<lparr>globals := g\<rparr>)
           = (fst (call_endpoint f w), (snd (call_endpoint f w))\<lparr>globals := g\<rparr>)
       \<and> unchanged w (snd (call_endpoint f w))
       \<and> fst (call_endpoint f w) = Inr (length (heap w))
       \<and> heap_get (heap w) (length (heap w)) = None
       \<and> heap_get (heap (snd (call_endpoint f w))) (length (heap w)) \<noteq> None
       \<and> fst (serve ((snd (serve w r1))\<lparr>heap := h\<rparr>) r2) = fst (serve w r2)"
proof -
  have "fst (serve ((snd (serve w r1))\<lparr>heap := h\<rparr>) r2) = fst (serve w r2)"
    by (rule serve_fst_globals) (simp_all add: serve_globals)
  then show ?thesis
    using assms
    by (simp add: loaded_globals call_endpoint_eval unchanged_def heap_get_def)
qed

theorem handlers_share_no_state_witness:
  "module_loaded busy_world
   \<and> [n. (n, App a) \<leftarrow> globals busy_world] = [''app'']
   \<and> fst (call_endpoint Fn_health_check busy_world) = Inr 2
   \<and> heap_get (heap busy_world) 2 = None
   \<and> heap_get (heap (snd (call_endpoint Fn_health_check busy_world))) 2 \<noteq> None
   \<and> fst (serve ((snd (serve busy_world health_request))\<lparr>heap := [[(''status'', ''down'')]]\<rparr>)
           health_request)
     = fst (serve busy_world health_request)"
proof -
  have l: "module_loaded busy_world"
    by (simp add: module_loaded_def busy_world_def fresh_world_def import_main_value)
  have n: "length (heap busy_world) = 2"
    by (simp add: busy_world_def fresh_world_def)
  from l handlers_share_no_state
    [OF l, where f = Fn_health_check and g = "[]" and ?r1.0 = health_request
       and h = "[[(''status'', ''down'')]]" and ?r2.0 = health_request]
  show ?thesis
    unfolding n by blast
qed

end
